theory Spec2Isabelle
  imports Complex_Main
begin

section \<open>JavaScript values read and written by the components\<close>

text \<open>
  A value of TypeScript type \<^verbatim>\<open>number\<close> as it exists at run time in
  \<^verbatim>\<open>src/Sticky.tsx\<close> and \<^verbatim>\<open>src/Container.tsx\<close>: a finite
  number, \<^verbatim>\<open>NaN\<close>, or \<^verbatim>\<open>undefined\<close> (an absent optional prop, or
  a field destructured from \<^verbatim>\<open>{}\<close>). Finite doubles are embedded in the
  reals: comparison and negation of doubles are exact, addition and subtraction are
  taken without rounding, so a value the code computes by arithmetic (the published
  \<^verbatim>\<open>distanceFromBottom\<close>, the style's \<^verbatim>\<open>top\<close>, and
  \<^verbatim>\<open>distanceFromTop\<close> in relative mode) can differ from the model's in the
  last bit. The theorems below relate the values a run publishes and do not
  depend on such a value. Infinities are left out.
\<close>

datatype jsnum = Undefined | NaN | Num real

text \<open>\<^verbatim>\<open>a <= b\<close> and \<^verbatim>\<open>a > b\<close>: both operands go through ToNumber,
  \<^verbatim>\<open>undefined\<close> becomes \<^verbatim>\<open>NaN\<close>, and a comparison with
  \<^verbatim>\<open>NaN\<close> is false.\<close>

fun js_le :: "jsnum \<Rightarrow> jsnum \<Rightarrow> bool" where
  "js_le (Num a) (Num b) = (a \<le> b)"
| "js_le _ _ = False"

fun js_gt :: "jsnum \<Rightarrow> jsnum \<Rightarrow> bool" where
  "js_gt (Num a) (Num b) = (a > b)"
| "js_gt _ _ = False"

text \<open>Unary minus, binary minus and plus on numbers.\<close>

fun js_neg :: "jsnum \<Rightarrow> jsnum" where
  "js_neg (Num a) = Num (- a)"
| "js_neg _ = NaN"

fun js_sub :: "jsnum \<Rightarrow> jsnum \<Rightarrow> jsnum" where
  "js_sub (Num a) (Num b) = Num (a - b)"
| "js_sub _ _ = NaN"

fun js_add :: "jsnum \<Rightarrow> jsnum \<Rightarrow> jsnum" where
  "js_add (Num a) (Num b) = Num (a + b)"
| "js_add _ _ = NaN"

text \<open>\<^verbatim>\<open>a ?? b\<close> on a \<^verbatim>\<open>number | undefined\<close>.\<close>

definition nullish :: "jsnum \<Rightarrow> jsnum \<Rightarrow> jsnum" where
  "nullish a b = (if a = Undefined then b else a)"

text \<open>
  Values stored in a style object or in \<^verbatim>\<open>style.paddingBottom\<close>. The
  template strings of the source keep the number they interpolate:
  \<open>CPx n\<close> is \<^verbatim>\<open>`${n}px`\<close> and \<open>CInset n\<close> is
  \<^verbatim>\<open>`inset(${n}px 0 0 0)`\<close>.
\<close>

datatype cssval = CNum jsnum | CStr string | CPx jsnum | CInset jsnum

datatype error = TypeError

section \<open>Sticky: props, state and the DOM it reads\<close>

text \<open>\<^verbatim>\<open>StickyProps\<close>. An absent boolean prop is \<^verbatim>\<open>undefined\<close>,
  which every use in the source tests for truthiness, so it is \<open>False\<close> here; an
  absent offset is \<open>Undefined\<close>.\<close>

record props =
  relative :: bool
  topOffset :: jsnum
  bottomOffset :: jsnum
  disableCompensation :: bool
  disableHardwareAcceleration :: bool

text \<open>\<^verbatim>\<open>StickyState\<close>; \<open>style\<close> is the \<^verbatim>\<open>Record<string, any>\<close>.\<close>

record sticky_state =
  isSticky :: bool
  wasSticky :: bool
  distanceFromTop :: jsnum
  distanceFromBottom :: jsnum
  calculatedHeight :: jsnum
  style :: "string \<rightharpoonup> cssval"

text \<open>The argument of \<^verbatim>\<open>useState\<close>.\<close>

definition initialState :: sticky_state where
  "initialState =
     \<lparr>isSticky = False, wasSticky = False, distanceFromTop = Num 0,
      distanceFromBottom = Num 0, calculatedHeight = Num 0, style = Map.empty\<rparr>"

text \<open>
  The container's root \<^verbatim>\<open>div\<close> (\<^verbatim>\<open>node.current\<close>, which is what
  \<^verbatim>\<open>context.getParent()\<close> returns): the properties the two components read.
  \<open>offsetParentScrollTop\<close> is \<open>None\<close> when \<^verbatim>\<open>offsetParent\<close> is null;
  \<open>rectTop\<close> and \<open>rectBottom\<close> are \<^verbatim>\<open>getBoundingClientRect()\<close>'s
  \<^verbatim>\<open>top\<close> and \<^verbatim>\<open>bottom\<close>.
\<close>

record root_node =
  scrollTop :: real
  offsetTop :: real
  offsetParentScrollTop :: "real option"
  rectTop :: real
  rectBottom :: real

text \<open>The placeholder \<^verbatim>\<open>div\<close>: its offset, its bounding rectangle and the
  one style property the component writes.\<close>

record placeholder_node =
  placeholderOffsetTop :: real
  rectLeft :: real
  rectWidth :: real
  paddingBottom :: cssval

text \<open>
  What a run of the handler sees: \<open>parent\<close> is \<^verbatim>\<open>node.current\<close> of the
  container (\<open>None\<close> when null), \<open>placeholder\<close> is
  \<^verbatim>\<open>placeholder.current\<close>, \<open>contentHeight\<close> is
  \<^verbatim>\<open>content.current?.getBoundingClientRect().height\<close>.
\<close>

record dom =
  parent :: "root_node option"
  placeholder :: "placeholder_node option"
  contentHeight :: "real option"

section \<open>Sticky: the style and the recomputation handler\<close>

text \<open>\<^verbatim>\<open>calculateStyle\<close> (Sticky.tsx, lines 140-177). Reading a property of a
  null parent is the \<^verbatim>\<open>TypeError\<close> JavaScript throws.\<close>

definition calculateStyle ::
  "props \<Rightarrow> dom \<Rightarrow> bool \<Rightarrow> jsnum \<Rightarrow> jsnum \<Rightarrow> error + (string \<rightharpoonup> cssval)" where
  "calculateStyle p d sticky fromBottom height =
     (let placeholderWidth = (case placeholder d of None \<Rightarrow> Undefined | Some ph \<Rightarrow> Num (rectWidth ph));
          placeholderLeft = (case placeholder d of None \<Rightarrow> Undefined | Some ph \<Rightarrow> Num (rectLeft ph));
          bottomDifference = js_sub (js_sub fromBottom (nullish (bottomOffset p) (Num 0))) height
      in if sticky then
           if relative p then
             (case parent d of
                None \<Rightarrow> Inl TypeError
              | Some par \<Rightarrow>
                  let top0 = Num (offsetTop par
                                  - (case offsetParentScrollTop par of None \<Rightarrow> 0 | Some s \<Rightarrow> s));
                      style0 = [''position'' \<mapsto> CStr ''absolute'', ''top'' \<mapsto> CNum top0,
                                ''width'' \<mapsto> CNum placeholderWidth]
                  in Inr (if js_le bottomDifference (Num 0)
                          then style0(''top'' \<mapsto> CNum (js_add top0 bottomDifference),
                                      ''clipPath'' \<mapsto> CInset (js_neg bottomDifference))
                          else style0))
           else
             Inr [''position'' \<mapsto> CStr ''fixed'',
                  ''top'' \<mapsto> CNum (if js_gt bottomDifference (Num 0) then Num 0 else bottomDifference),
                  ''left'' \<mapsto> CNum placeholderLeft,
                  ''width'' \<mapsto> CNum placeholderWidth]
         else Inr Map.empty)"

text \<open>Step 1 of the handler (lines 187-192): in relative mode the sample's
  \<^verbatim>\<open>distanceFromTop\<close> is replaced by the container-local offset.\<close>

definition relativeTop :: "props \<Rightarrow> dom \<Rightarrow> jsnum \<Rightarrow> error + jsnum" where
  "relativeTop p d fromTop =
     (if relative p then
        (case parent d of
           None \<Rightarrow> Inl TypeError
         | Some par \<Rightarrow>
             Inr (Num (- (scrollTop par + offsetTop par)
                       + (case placeholder d of None \<Rightarrow> 0 | Some ph \<Rightarrow> placeholderOffsetTop ph))))
      else Inr fromTop)"

text \<open>
  \<^verbatim>\<open>handleContainerEvent\<close> (lines 179-236) as a closure over the props \<open>p\<close> and
  the state \<open>s\<close> of the render that created it, run on the DOM \<open>d\<close> with the
  sample \<open>{distanceFromTop, distanceFromBottom}\<close>. It returns the state handed to
  \<^verbatim>\<open>setState\<close> and the DOM after the write to the placeholder's padding.
  \<^verbatim>\<open>calculateStyle\<close> is memoised with the dependency list \<^verbatim>\<open>[]\<close>
  and so holds the props of the first render; the only handler ever called is the first
  render's as well (see \<open>firstRender\<close> below), so both read the same props \<open>p\<close>.
\<close>

definition handleContainerEvent ::
  "props \<Rightarrow> sticky_state \<Rightarrow> dom \<Rightarrow> jsnum \<Rightarrow> jsnum \<Rightarrow> error + (sticky_state \<times> dom)" where
  "handleContainerEvent p s d fromTop fromBottom =
     (case relativeTop p d fromTop of
        Inl e \<Rightarrow> Inl e
      | Inr fromTop' \<Rightarrow>
          let height = (case contentHeight d of None \<Rightarrow> Num 0 | Some h \<Rightarrow> Num h);
              was = isSticky s;
              sticky = (js_le fromTop' (js_neg (nullish (topOffset p) (Num 0)))
                        \<and> js_gt fromBottom (js_neg (nullish (bottomOffset p) (Num 0))))
          in (case calculateStyle p d sticky fromBottom height of
                Inl e \<Rightarrow> Inl e
              | Inr style0 \<Rightarrow>
                  let fromBottom' = js_sub fromBottom height;
                      style1 = (if disableHardwareAcceleration p then style0
                                else style0(''transform'' \<mapsto> CStr ''translateZ(0)''));
                      d' = (case placeholder d of
                              None \<Rightarrow> d
                            | Some ph \<Rightarrow>
                                d\<lparr>placeholder :=
                                    Some (ph\<lparr>paddingBottom :=
                                              CPx (if sticky then height else Num 0)\<rparr>)\<rparr>)
                  in Inr (\<lparr>isSticky = sticky, wasSticky = was, distanceFromTop = fromTop',
                           distanceFromBottom = fromBottom', calculatedHeight = height,
                           style = style1\<rparr>, d')))"

text \<open>The state a run publishes, when it does not throw.\<close>

definition published :: "error + (sticky_state \<times> dom) \<Rightarrow> sticky_state option" where
  "published r = (case r of Inl e \<Rightarrow> None | Inr (st, d) \<Rightarrow> Some st)"

text \<open>The placeholder's padding after a run, when it did not throw and the placeholder
  is mounted.\<close>

definition paddingAfter :: "error + (sticky_state \<times> dom) \<Rightarrow> cssval option" where
  "paddingAfter r =
     (case r of Inl e \<Rightarrow> None | Inr (st, d) \<Rightarrow> map_option paddingBottom (placeholder d))"

text \<open>
  The second effect of the component (lines 250-254), run after mount and whenever
  \<^verbatim>\<open>disableCompensation\<close> changes. \<^verbatim>\<open>placeholder.current!\<close> is read
  without a check.
\<close>

definition compensationEffect :: "props \<Rightarrow> sticky_state \<Rightarrow> dom \<Rightarrow> error + dom" where
  "compensationEffect p s d =
     (case placeholder d of
        None \<Rightarrow> Inl TypeError
      | Some ph \<Rightarrow>
          Inr (d\<lparr>placeholder :=
                  Some (ph\<lparr>paddingBottom :=
                            (if disableCompensation p then CStr ''0''
                             else CPx (if isSticky s then calculatedHeight s else Num 0))\<rparr>)\<rparr>))"

section \<open>Sticky: which handler is subscribed\<close>

text \<open>
  A function value \<^verbatim>\<open>handleContainerEvent\<close> is a closure: it holds the
  \<^verbatim>\<open>props\<close> and the \<^verbatim>\<open>state\<close> of the render that created it.
\<close>

record closure =
  capturedProps :: props
  capturedState :: sticky_state

definition callHandler :: "closure \<Rightarrow> dom \<Rightarrow> jsnum \<Rightarrow> jsnum \<Rightarrow> error + (sticky_state \<times> dom)" where
  "callHandler h d fromTop fromBottom =
     handleContainerEvent (capturedProps h) (capturedState h) d fromTop fromBottom"

text \<open>
  The subscribing effect (lines 238-248) has the dependency list \<^verbatim>\<open>[]\<close>: it runs
  once, after the first render, and subscribes the \<^verbatim>\<open>handleContainerEvent\<close> of
  that render, whose \<^verbatim>\<open>state\<close> is the argument of \<^verbatim>\<open>useState\<close>. The
  handlers that \<^verbatim>\<open>useCallback\<close> creates in later renders are never subscribed.
\<close>

definition firstRender :: "props \<Rightarrow> closure" where
  "firstRender p = \<lparr>capturedProps = p, capturedState = initialState\<rparr>"

text \<open>
  The context value: \<^verbatim>\<open>{}\<close> by default (every capability absent), the
  container's callbacks inside a \<^verbatim>\<open>StickyContext.Provider\<close>. A capability acts
  on the state \<open>'c\<close> of the container that provides it.
\<close>

record ('h, 'c) sticky_context =
  ctxSubscribe :: "('h \<Rightarrow> 'c \<Rightarrow> 'c) option"
  ctxUnsubscribe :: "('h \<Rightarrow> 'c \<Rightarrow> 'c) option"

definition defaultContext :: "('h, 'c) sticky_context" where
  "defaultContext = \<lparr>ctxSubscribe = None, ctxUnsubscribe = None\<rparr>"

text \<open>The body of the subscribing effect and the cleanup it returns. Calling an absent
  \<^verbatim>\<open>unsubscribe\<close> is JavaScript's \<^verbatim>\<open>TypeError\<close> as well.\<close>

definition mountEffect :: "('h, 'c) sticky_context \<Rightarrow> 'h \<Rightarrow> 'c \<Rightarrow> error + 'c" where
  "mountEffect ctx handler c =
     (case ctxSubscribe ctx of
        None \<Rightarrow> Inl TypeError
      | Some sub \<Rightarrow> Inr (sub handler c))"

definition unmountCleanup :: "('h, 'c) sticky_context \<Rightarrow> 'h \<Rightarrow> 'c \<Rightarrow> error + 'c" where
  "unmountCleanup ctx handler c =
     (case ctxUnsubscribe ctx of
        None \<Rightarrow> Inl TypeError
      | Some unsub \<Rightarrow> Inr (unsub handler c))"

section \<open>Container: registry, frame throttle and broadcast\<close>

text \<open>
  The state of one container: the \<^verbatim>\<open>subscribers\<close> state, the refs
  \<^verbatim>\<open>framePending\<close>, \<^verbatim>\<open>rafHandle\<close> and \<^verbatim>\<open>node\<close>, the
  frame scheduler's queue and last handle, and the log of the handler calls made so far
  (handler, \<^verbatim>\<open>distanceFromTop\<close>, \<^verbatim>\<open>distanceFromBottom\<close>).
  Handlers are compared by reference in the source, by equality of \<open>'h\<close> here.
\<close>

record 'h container =
  subscribers :: "'h list"
  framePending :: bool
  rafHandle :: "nat option"
  node :: "root_node option"
  rafQueue :: "(nat \<times> 'h list) list"
  lastHandle :: nat
  calls :: "('h \<times> jsnum \<times> jsnum) list"

text \<open>
  Modelled from the spec: the frame scheduler \<^verbatim>\<open>raf\<close> and its
  \<^verbatim>\<open>raf.cancel\<close> come from an imported package; the spec describes them as a
  mechanism to schedule a callback aligned to the next display frame, and to cancel a
  previously scheduled one. Here the scheduler is a queue of callbacks, each under a
  fresh handle counted from 1. The callback that \<^verbatim>\<open>notifySubscribers\<close>
  passes is a closure over the \<^verbatim>\<open>subscribers\<close> array of its render, which is
  all the queue keeps of it.
\<close>

definition raf :: "'h list \<Rightarrow> 'h container \<Rightarrow> nat \<times> 'h container" where
  "raf callback c =
     (Suc (lastHandle c),
      c\<lparr>rafQueue := rafQueue c @ [(Suc (lastHandle c), callback)],
        lastHandle := Suc (lastHandle c)\<rparr>)"

definition rafCancel :: "nat \<Rightarrow> 'h container \<Rightarrow> 'h container" where
  "rafCancel handle c = c\<lparr>rafQueue := filter (\<lambda>(i, callback). i \<noteq> handle) (rafQueue c)\<rparr>"

text \<open>
  The cleanup of the effect that binds \<^verbatim>\<open>notifySubscribers\<close> (lines 73-81). The
  handle is tested for truthiness, so handle 0 counts as none. The event listeners it
  removes are bound again at once by the effect of the new render.
\<close>

definition effectCleanup :: "'h container \<Rightarrow> 'h container" where
  "effectCleanup c =
     (case rafHandle c of
        None \<Rightarrow> c
      | Some handle \<Rightarrow>
          if handle = 0 then c else (rafCancel handle c)\<lparr>rafHandle := None\<rparr>)"

text \<open>
  \<^verbatim>\<open>setSubscribers(updater)\<close>: the new array is a new state, the component renders
  again, \<^verbatim>\<open>notifySubscribers\<close> is created anew (its dependency
  \<^verbatim>\<open>subscribers\<close> changed) and the binding effect runs its cleanup.
\<close>

definition setSubscribers :: "('h list \<Rightarrow> 'h list) \<Rightarrow> 'h container \<Rightarrow> 'h container" where
  "setSubscribers updater c = effectCleanup (c\<lparr>subscribers := updater (subscribers c)\<rparr>)"

text \<open>\<^verbatim>\<open>subscribe\<close> (lines 37-39) and \<^verbatim>\<open>unsubscribe\<close> (lines 41-46).\<close>

definition subscribe :: "'h \<Rightarrow> 'h container \<Rightarrow> 'h container" where
  "subscribe handler c = setSubscribers (\<lambda>prev. prev @ [handler]) c"

definition unsubscribe :: "'h \<Rightarrow> 'h container \<Rightarrow> 'h container" where
  "unsubscribe handler c =
     setSubscribers (\<lambda>prev. filter (\<lambda>current. current \<noteq> handler) prev @ [handler]) c"

text \<open>The value of the \<^verbatim>\<open>StickyContext.Provider\<close> (lines 85-91).\<close>

definition providedContext :: "('h, 'h container) sticky_context" where
  "providedContext = \<lparr>ctxSubscribe = Some subscribe, ctxUnsubscribe = Some unsubscribe\<rparr>"

text \<open>\<^verbatim>\<open>notifySubscribers\<close> (lines 48-67); the event itself is not used.\<close>

definition notifySubscribers :: "'h container \<Rightarrow> 'h container" where
  "notifySubscribers c =
     (if \<not> framePending c then
        (case raf (subscribers c) c of
           (handle, c1) \<Rightarrow> c1\<lparr>rafHandle := Some handle, framePending := True\<rparr>)
      else c)"

text \<open>\<^verbatim>\<open>const { top, bottom } = node.current?.getBoundingClientRect() ?? {}\<close>.\<close>

definition measureRoot :: "root_node option \<Rightarrow> jsnum \<times> jsnum" where
  "measureRoot n =
     (case n of
        None \<Rightarrow> (Undefined, Undefined)
      | Some r \<Rightarrow> (Num (rectTop r), Num (rectBottom r)))"

text \<open>
  What a handler does to the registry while it runs (a Sticky unmounted or mounted
  during the broadcast calls \<^verbatim>\<open>unsubscribe\<close> or \<^verbatim>\<open>subscribe\<close>). The
  behaviour of the handlers is a parameter \<open>react\<close>: given the calls made so far and
  the handler called, the registry operations that call performs.
\<close>

datatype 'h regop = Sub 'h | Unsub 'h

fun applyOp :: "'h regop \<Rightarrow> 'h container \<Rightarrow> 'h container" where
  "applyOp (Sub h) c = subscribe h c"
| "applyOp (Unsub h) c = unsubscribe h c"

definition invoke ::
  "(('h \<times> jsnum \<times> jsnum) list \<Rightarrow> 'h \<Rightarrow> 'h regop list) \<Rightarrow> jsnum \<Rightarrow> jsnum \<Rightarrow> 'h
     \<Rightarrow> 'h container \<Rightarrow> 'h container" where
  "invoke react fromTop fromBottom handler c =
     fold applyOp (react (calls c) handler)
       (c\<lparr>calls := calls c @ [(handler, fromTop, fromBottom)]\<rparr>)"

text \<open>The callback given to \<^verbatim>\<open>raf\<close> (lines 52-61); \<open>captured\<close> is the
  \<^verbatim>\<open>subscribers\<close> array of its closure, which no code mutates in place.\<close>

definition frameCallback ::
  "(('h \<times> jsnum \<times> jsnum) list \<Rightarrow> 'h \<Rightarrow> 'h regop list) \<Rightarrow> 'h list
     \<Rightarrow> 'h container \<Rightarrow> 'h container" where
  "frameCallback react captured c =
     (let c1 = c\<lparr>framePending := False\<rparr>
      in (case measureRoot (node c1) of
            (fromTop, fromBottom) \<Rightarrow> fold (invoke react fromTop fromBottom) captured c1))"

text \<open>A display frame: the scheduler runs the callbacks queued for it.\<close>

definition frame ::
  "(('h \<times> jsnum \<times> jsnum) list \<Rightarrow> 'h \<Rightarrow> 'h regop list) \<Rightarrow> 'h container \<Rightarrow> 'h container" where
  "frame react c =
     fold (\<lambda>(handle, captured). frameCallback react captured) (rafQueue c) (c\<lparr>rafQueue := []\<rparr>)"

text \<open>What can happen to a mounted container, and a run of such happenings.\<close>

datatype 'h action = Event | Frame | Subscribe 'h | Unsubscribe 'h

fun step ::
  "(('h \<times> jsnum \<times> jsnum) list \<Rightarrow> 'h \<Rightarrow> 'h regop list) \<Rightarrow> 'h action
     \<Rightarrow> 'h container \<Rightarrow> 'h container" where
  "step react Event c = notifySubscribers c"
| "step react Frame c = frame react c"
| "step react (Subscribe h) c = subscribe h c"
| "step react (Unsubscribe h) c = unsubscribe h c"

definition run ::
  "(('h \<times> jsnum \<times> jsnum) list \<Rightarrow> 'h \<Rightarrow> 'h regop list) \<Rightarrow> 'h action list
     \<Rightarrow> 'h container \<Rightarrow> 'h container" where
  "run react acts c = fold (step react) acts c"

text \<open>A container after its first render, with root node \<open>n\<close>.\<close>

definition mountedContainer :: "root_node option \<Rightarrow> 'h container" where
  "mountedContainer n =
     \<lparr>subscribers = [], framePending = False, rafHandle = None, node = n,
      rafQueue = [], lastHandle = 0, calls = []\<rparr>"

section \<open>A Sticky through several broadcasts\<close>

text \<open>
  The broadcasts one subscribed handler \<open>h\<close> receives, one per frame: \<open>n\<close> is the
  container's \<^verbatim>\<open>node.current\<close> at that frame, measured by the container and
  returned by \<^verbatim>\<open>getParent()\<close>; the placeholder keeps the padding written in
  the cycle before. The result lists the states handed to \<^verbatim>\<open>setState\<close>; a
  throw ends the list.
\<close>

fun cycles :: "closure \<Rightarrow> dom \<Rightarrow> root_node option list \<Rightarrow> error + (sticky_state list \<times> dom)" where
  "cycles h d [] = Inr ([], d)"
| "cycles h d (n # ns) =
     (case callHandler h (d\<lparr>parent := n\<rparr>) (fst (measureRoot n)) (snd (measureRoot n)) of
        Inl e \<Rightarrow> Inl e
      | Inr (st, d') \<Rightarrow>
          (case cycles h d' ns of
             Inl e \<Rightarrow> Inl e
           | Inr (sts, d'') \<Rightarrow> Inr (st # sts, d'')))"

text \<open>The states such a sequence published, when no cycle threw.\<close>

definition statesOf :: "error + (sticky_state list \<times> dom) \<Rightarrow> sticky_state list option" where
  "statesOf r = (case r of Inl e \<Rightarrow> None | Inr (sts, d) \<Rightarrow> Some sts)"

text \<open>The value a published state's style holds under a property name.\<close>

definition styleAt :: "string \<Rightarrow> sticky_state \<Rightarrow> cssval option" where
  "styleAt k st = style st k"

section \<open>Example inputs\<close>

text \<open>No prop given; a root node whose top edge is 10px above the viewport top and
  whose bottom edge is 100px below it; a mounted placeholder whose padding is still the
  empty string; a content of height 50. The handler takes the sample as an argument of its own and, outside
  relative mode, reads nothing of the root node, so the examples also run it on this
  DOM with other samples.\<close>

definition defaultProps :: props where
  "defaultProps =
     \<lparr>relative = False, topOffset = Undefined, bottomOffset = Undefined,
      disableCompensation = False, disableHardwareAcceleration = False\<rparr>"

definition exampleRoot :: root_node where
  "exampleRoot =
     \<lparr>scrollTop = 0, offsetTop = 0, offsetParentScrollTop = None,
      rectTop = - 10, rectBottom = 100\<rparr>"

definition examplePlaceholder :: placeholder_node where
  "examplePlaceholder =
     \<lparr>placeholderOffsetTop = 0, rectLeft = 8, rectWidth = 300, paddingBottom = CStr ''''\<rparr>"

definition exampleDom :: dom where
  "exampleDom =
     \<lparr>parent = Some exampleRoot, placeholder = Some examplePlaceholder,
      contentHeight = Some 50\<rparr>"

text \<open>Handlers for the container's examples are numbered. \<open>quiet\<close> is the
  behaviour of handlers that leave the registry alone, as
  \<^verbatim>\<open>handleContainerEvent\<close> does; under \<open>unmountsOther\<close> a call of
  handler 1 unmounts the Sticky of handler 2, whose cleanup unsubscribes handler 2.\<close>

definition quiet :: "(nat \<times> jsnum \<times> jsnum) list \<Rightarrow> nat \<Rightarrow> nat regop list" where
  "quiet sofar h = []"

definition unmountsOther :: "(nat \<times> jsnum \<times> jsnum) list \<Rightarrow> nat \<Rightarrow> nat regop list" where
  "unmountsOther sofar h = (if h = 1 then [Unsub 2] else [])"

section \<open>The recomputation handler: what a run returns\<close>

lemma published_Some: "published r = Some st \<longleftrightarrow> (\<exists>d'. r = Inr (st, d'))"
  by (auto simp: published_def split: sum.splits)

lemma handleContainerEvent_Inr:
  assumes "handleContainerEvent p s d fromTop fromBottom = Inr (st, d')"
  obtains fromTop' style0 where
    "relativeTop p d fromTop = Inr fromTop'"
    "calculateStyle p d (isSticky st) fromBottom (calculatedHeight st) = Inr style0"
    "isSticky st = (js_le fromTop' (js_neg (nullish (topOffset p) (Num 0)))
                    \<and> js_gt fromBottom (js_neg (nullish (bottomOffset p) (Num 0))))"
    "wasSticky st = isSticky s"
    "distanceFromTop st = fromTop'"
    "distanceFromBottom st = js_sub fromBottom (calculatedHeight st)"
    "calculatedHeight st = (case contentHeight d of None \<Rightarrow> Num 0 | Some h \<Rightarrow> Num h)"
    "style st = (if disableHardwareAcceleration p then style0
                 else style0(''transform'' \<mapsto> CStr ''translateZ(0)''))"
    "d' = (case placeholder d of
             None \<Rightarrow> d
           | Some ph \<Rightarrow> d\<lparr>placeholder := Some (ph\<lparr>paddingBottom :=
                               CPx (if isSticky st then calculatedHeight st else Num 0)\<rparr>)\<rparr>)"
proof (cases "relativeTop p d fromTop")
  case (Inl e)
  with assms show ?thesis by (simp add: handleContainerEvent_def)
next
  case top: (Inr fromTop')
  define height where "height = (case contentHeight d of None \<Rightarrow> Num 0 | Some h \<Rightarrow> Num h)"
  define sticky where "sticky = (js_le fromTop' (js_neg (nullish (topOffset p) (Num 0)))
                        \<and> js_gt fromBottom (js_neg (nullish (bottomOffset p) (Num 0))))"
  show ?thesis
  proof (cases "calculateStyle p d sticky fromBottom height")
    case (Inl e)
    with assms top show ?thesis
      by (simp add: handleContainerEvent_def Let_def height_def sticky_def)
  next
    case (Inr style0)
    have "handleContainerEvent p s d fromTop fromBottom =
            Inr (\<lparr>isSticky = sticky, wasSticky = isSticky s, distanceFromTop = fromTop',
                   distanceFromBottom = js_sub fromBottom height, calculatedHeight = height,
                   style = (if disableHardwareAcceleration p then style0
                            else style0(''transform'' \<mapsto> CStr ''translateZ(0)''))\<rparr>,
                 (case placeholder d of
                    None \<Rightarrow> d
                  | Some ph \<Rightarrow> d\<lparr>placeholder := Some (ph\<lparr>paddingBottom :=
                               CPx (if sticky then height else Num 0)\<rparr>)\<rparr>))"
      using top Inr unfolding handleContainerEvent_def Let_def height_def sticky_def
      by simp
    with assms have st: "st = \<lparr>isSticky = sticky, wasSticky = isSticky s, distanceFromTop = fromTop',
                           distanceFromBottom = js_sub fromBottom height, calculatedHeight = height,
                           style = (if disableHardwareAcceleration p then style0
                                else style0(''transform'' \<mapsto> CStr ''translateZ(0)''))\<rparr>"
      and d': "d' = (case placeholder d of
             None \<Rightarrow> d
           | Some ph \<Rightarrow> d\<lparr>placeholder := Some (ph\<lparr>paddingBottom :=
                               CPx (if sticky then height else Num 0)\<rparr>)\<rparr>)"
      by simp_all
    show ?thesis
      by (rule that[of fromTop' style0])
        (simp_all add: st d' top Inr[unfolded height_def sticky_def] height_def sticky_def
          cong: option.case_cong)
  qed
qed

lemma js_gt_irrefl: "\<not> js_gt b b"
  by (cases b) simp_all

lemma example_runs:
  "\<exists>st d'. handleContainerEvent defaultProps initialState exampleDom (Num 0) (Num 100) = Inr (st, d')"
  "\<exists>st d'. handleContainerEvent defaultProps initialState exampleDom (Num (- 10)) (Num 0) = Inr (st, d')"
  by (simp_all add: handleContainerEvent_def relativeTop_def calculateStyle_def defaultProps_def
      exampleDom_def Let_def)

section \<open>The sticky decision\<close>

text \<open>
  Claim C1. Whenever the handler runs to its \<^verbatim>\<open>setState\<close>, the
  \<^verbatim>\<open>isSticky\<close> it publishes is
  \<^verbatim>\<open>distanceFromTop <= -(topOffset ?? 0) && distanceFromBottom > -(bottomOffset ?? 0)\<close>,
  where \<^verbatim>\<open>distanceFromTop\<close> is the value after step 1 (the sample's own value
  outside relative mode), which is also the one published, and
  \<^verbatim>\<open>distanceFromBottom\<close> is the sample's. At
  \<^verbatim>\<open>distanceFromTop == -topOffset\<close> the top condition holds, so the decision is
  the bottom condition alone; at \<^verbatim>\<open>distanceFromBottom == -bottomOffset\<close> the
  element is not sticky.
\<close>

theorem isSticky_threshold:
  assumes "handleContainerEvent p s d fromTop fromBottom = Inr (st, d')"
  shows "relativeTop p d fromTop = Inr (distanceFromTop st)
         \<and> isSticky st =
             (js_le (distanceFromTop st) (js_neg (nullish (topOffset p) (Num 0)))
              \<and> js_gt fromBottom (js_neg (nullish (bottomOffset p) (Num 0))))
         \<and> (\<not> relative p \<longrightarrow> distanceFromTop st = fromTop)
         \<and> (\<forall>x. distanceFromTop st = Num x \<and> nullish (topOffset p) (Num 0) = Num (- x)
                \<longrightarrow> isSticky st = js_gt fromBottom (js_neg (nullish (bottomOffset p) (Num 0))))
         \<and> (fromBottom = js_neg (nullish (bottomOffset p) (Num 0)) \<longrightarrow> \<not> isSticky st)"
proof -
  from assms obtain fromTop' where
    top: "relativeTop p d fromTop = Inr fromTop'" and
    dec: "isSticky st = (js_le fromTop' (js_neg (nullish (topOffset p) (Num 0)))
                    \<and> js_gt fromBottom (js_neg (nullish (bottomOffset p) (Num 0))))" and
    pub: "distanceFromTop st = fromTop'"
    by (rule handleContainerEvent_Inr)
  have nonrel: "\<not> relative p \<longrightarrow> fromTop' = fromTop"
    using top by (auto simp: relativeTop_def)
  show ?thesis
    using top dec pub nonrel js_gt_irrefl by auto
qed

theorem isSticky_threshold_witness:
  "map_option isSticky
     (published (handleContainerEvent defaultProps initialState exampleDom (Num 0) (Num 100)))
     = Some True
   \<and> map_option isSticky
       (published (handleContainerEvent defaultProps initialState exampleDom (Num (- 10)) (Num 0)))
     = Some False"
proof -
  obtain st1 d1 where
    r1: "handleContainerEvent defaultProps initialState exampleDom (Num 0) (Num 100) = Inr (st1, d1)"
    using example_runs(1) by blast
  obtain st2 d2 where
    r2: "handleContainerEvent defaultProps initialState exampleDom (Num (- 10)) (Num 0) = Inr (st2, d2)"
    using example_runs(2) by blast
  have offsets: "nullish (topOffset defaultProps) (Num 0) = Num (- 0)"
    "js_neg (nullish (bottomOffset defaultProps) (Num 0)) = Num 0"
    "\<not> relative defaultProps"
    by (simp_all add: defaultProps_def nullish_def)
  from isSticky_threshold [OF r1] offsets have "isSticky st1"
    by simp
  moreover from isSticky_threshold [OF r2] offsets have "\<not> isSticky st2"
    by simp
  ultimately show ?thesis
    by (simp add: r1 r2 published_def)
qed

text \<open>
  Claim C10. The state held by the handler's closure has no part in the decision: two
  runs with the same props, DOM and sample, from any two previous states, either both
  throw or publish the same \<^verbatim>\<open>isSticky\<close>.
\<close>

theorem isSticky_memoryless:
  "map_option isSticky (published (handleContainerEvent p s1 d fromTop fromBottom))
   = map_option isSticky (published (handleContainerEvent p s2 d fromTop fromBottom))"
  by (simp add: handleContainerEvent_def published_def Let_def split: sum.splits)

section \<open>The published style\<close>

lemma calculateStyle_not_sticky: "calculateStyle p d False fromBottom height = Inr Map.empty"
  by (simp add: calculateStyle_def)

lemma calculateStyle_sticky:
  assumes "calculateStyle p d True fromBottom height = Inr style0"
  shows "style0 ''position'' = Some (CStr (if relative p then ''absolute'' else ''fixed''))"
    and "style0 ''top'' \<noteq> None"
    and "style0 ''width'' \<noteq> None"
    and "style0 ''transform'' = None"
  using assms
  by (auto simp: calculateStyle_def Let_def split: if_splits option.splits)

lemma example_not_sticky_run:
  "\<exists>st d'. handleContainerEvent defaultProps initialState exampleDom (Num 10) (Num 100) = Inr (st, d')"
  by (simp add: handleContainerEvent_def relativeTop_def calculateStyle_def defaultProps_def
      exampleDom_def Let_def)

text \<open>
  Claim C4, as stated, fails: with hardware acceleration not disabled, a cycle that
  decides "not sticky" (top edge 10px below the viewport top) publishes a style that
  holds \<^verbatim>\<open>transform: translateZ(0)\<close>, not the empty object.
\<close>

theorem style_not_sticky_counterexample:
  "disableHardwareAcceleration defaultProps = False
   \<and> map_option isSticky
       (published (handleContainerEvent defaultProps initialState exampleDom (Num 10) (Num 100)))
     = Some False
   \<and> map_option (styleAt ''transform'')
       (published (handleContainerEvent defaultProps initialState exampleDom (Num 10) (Num 100)))
     = Some (Some (CStr ''translateZ(0)''))"
  by (simp add: handleContainerEvent_def relativeTop_def calculateStyle_def defaultProps_def
      exampleDom_def Let_def published_def styleAt_def nullish_def)

text \<open>
  Claim C4, amended. With hardware acceleration not disabled, every published style
  holds \<^verbatim>\<open>transform: translateZ(0)\<close>: when the element is not sticky the
  style holds that property and nothing else (no positioning property), and when it is
  sticky the style holds it next to \<^verbatim>\<open>position\<close> (\<^verbatim>\<open>absolute\<close> in
  relative mode, \<^verbatim>\<open>fixed\<close> otherwise), \<^verbatim>\<open>top\<close> and
  \<^verbatim>\<open>width\<close>.
\<close>

theorem style_hardware_acceleration:
  assumes "\<not> disableHardwareAcceleration p"
    and "handleContainerEvent p s d fromTop fromBottom = Inr (st, d')"
  shows "(\<not> isSticky st \<longrightarrow> style st = [''transform'' \<mapsto> CStr ''translateZ(0)''])
         \<and> (isSticky st \<longrightarrow>
               style st ''transform'' = Some (CStr ''translateZ(0)'')
               \<and> style st ''position'' = Some (CStr (if relative p then ''absolute'' else ''fixed''))
               \<and> style st ''top'' \<noteq> None
               \<and> style st ''width'' \<noteq> None)"
proof -
  from assms(2) obtain style0 where
    calc: "calculateStyle p d (isSticky st) fromBottom (calculatedHeight st) = Inr style0" and
    "style st = (if disableHardwareAcceleration p then style0
                 else style0(''transform'' \<mapsto> CStr ''translateZ(0)''))"
    by (rule handleContainerEvent_Inr)
  with assms(1) have st: "style st = style0(''transform'' \<mapsto> CStr ''translateZ(0)'')"
    by simp
  show ?thesis
  proof (cases "isSticky st")
    case False
    with calc have "style0 = Map.empty"
      by (simp add: calculateStyle_not_sticky)
    with False st show ?thesis by simp
  next
    case True
    with calc have "calculateStyle p d True fromBottom (calculatedHeight st) = Inr style0"
      by simp
    from calculateStyle_sticky(1-3) [OF this] True st show ?thesis
      by simp
  qed
qed

theorem style_hardware_acceleration_witness:
  "\<not> disableHardwareAcceleration defaultProps
   \<and> map_option style
       (published (handleContainerEvent defaultProps initialState exampleDom (Num 10) (Num 100)))
     = Some [''transform'' \<mapsto> CStr ''translateZ(0)'']
   \<and> map_option (styleAt ''transform'')
       (published (handleContainerEvent defaultProps initialState exampleDom (Num 0) (Num 100)))
     = Some (Some (CStr ''translateZ(0)''))
   \<and> map_option (styleAt ''position'')
       (published (handleContainerEvent defaultProps initialState exampleDom (Num 0) (Num 100)))
     = Some (Some (CStr ''fixed''))"
proof -
  have hw: "\<not> disableHardwareAcceleration defaultProps" and rel: "\<not> relative defaultProps"
    by (simp_all add: defaultProps_def)
  obtain st1 d1 where
    r1: "handleContainerEvent defaultProps initialState exampleDom (Num 10) (Num 100) = Inr (st1, d1)"
    using example_not_sticky_run by blast
  obtain st2 d2 where
    r2: "handleContainerEvent defaultProps initialState exampleDom (Num 0) (Num 100) = Inr (st2, d2)"
    using example_runs(1) by blast
  have "\<not> isSticky st1"
    using r1 by (auto simp: handleContainerEvent_def relativeTop_def defaultProps_def nullish_def
        Let_def split: sum.splits)
  with style_hardware_acceleration [OF hw r1]
  have s1: "style st1 = [''transform'' \<mapsto> CStr ''translateZ(0)'']"
    by simp
  have "isSticky st2"
    using r2 by (auto simp: handleContainerEvent_def relativeTop_def defaultProps_def nullish_def
        Let_def split: sum.splits)
  with style_hardware_acceleration [OF hw r2] rel
  have s2: "style st2 ''transform'' = Some (CStr ''translateZ(0)'')"
    "style st2 ''position'' = Some (CStr ''fixed'')"
    by simp_all
  show ?thesis
    using hw s1 s2 by (simp add: r1 r2 published_def styleAt_def)
qed

section \<open>The placeholder's padding\<close>

text \<open>The handler never reads \<^verbatim>\<open>disableCompensation\<close>: the prop changes
  nothing in what a run returns, the padding it writes included.\<close>

lemma handler_ignores_disableCompensation:
  "handleContainerEvent (p\<lparr>disableCompensation := b\<rparr>) s d fromTop fromBottom
   = handleContainerEvent p s d fromTop fromBottom"
proof -
  have top: "relativeTop (p\<lparr>disableCompensation := b\<rparr>) = relativeTop p"
    by (simp add: relativeTop_def fun_eq_iff)
  have calc: "calculateStyle (p\<lparr>disableCompensation := b\<rparr>) = calculateStyle p"
    by (simp add: calculateStyle_def fun_eq_iff Let_def cong: if_cong)
  show ?thesis
    unfolding handleContainerEvent_def top calc
    by (simp add: Let_def cong: sum.case_cong if_cong)
qed

lemma padding_written:
  assumes "handleContainerEvent p s d fromTop fromBottom = Inr (st, d')"
    and "placeholder d = Some ph"
  shows "map_option paddingBottom (placeholder d')
         = Some (CPx (if isSticky st then calculatedHeight st else Num 0))"
proof -
  from assms(1) have
    "d' = (case placeholder d of
             None \<Rightarrow> d
           | Some ph \<Rightarrow> d\<lparr>placeholder := Some (ph\<lparr>paddingBottom :=
                               CPx (if isSticky st then calculatedHeight st else Num 0)\<rparr>)\<rparr>)"
    by (rule handleContainerEvent_Inr)
  with assms(2) show ?thesis by simp
qed

text \<open>
  Claim C2 against the code. With \<^verbatim>\<open>disableCompensation\<close> set, the effect of
  lines 250-254 writes the padding \<^verbatim>\<open>"0"\<close> at mount; the next cycle that
  decides "sticky" (top edge 10px above the viewport top, content height 50) writes
  \<^verbatim>\<open>"50px"\<close>, since lines 214-217 do not look at the prop.
\<close>

theorem disableCompensation_padding_overwritten:
  "compensationEffect (defaultProps\<lparr>disableCompensation := True\<rparr>) initialState exampleDom
     = Inr (exampleDom\<lparr>placeholder := Some (examplePlaceholder\<lparr>paddingBottom := CStr ''0''\<rparr>)\<rparr>)
   \<and> map_option isSticky
       (published (handleContainerEvent (defaultProps\<lparr>disableCompensation := True\<rparr>)
          initialState
          (exampleDom\<lparr>placeholder := Some (examplePlaceholder\<lparr>paddingBottom := CStr ''0''\<rparr>)\<rparr>)
          (Num (- 10)) (Num 100)))
     = Some True
   \<and> paddingAfter (handleContainerEvent (defaultProps\<lparr>disableCompensation := True\<rparr>)
        initialState
        (exampleDom\<lparr>placeholder := Some (examplePlaceholder\<lparr>paddingBottom := CStr ''0''\<rparr>)\<rparr>)
        (Num (- 10)) (Num 100))
     = Some (CPx (Num 50))"
  by (simp add: compensationEffect_def handleContainerEvent_def relativeTop_def calculateStyle_def
      defaultProps_def exampleDom_def examplePlaceholder_def Let_def published_def
      paddingAfter_def nullish_def)

section \<open>wasSticky across broadcasts\<close>

text \<open>Inside one run, \<^verbatim>\<open>wasSticky\<close> is the \<^verbatim>\<open>isSticky\<close> of the state
  the closure holds.\<close>

lemma wasSticky_is_captured:
  assumes "callHandler h d fromTop fromBottom = Inr (st, d')"
  shows "wasSticky st = isSticky (capturedState h)"
proof -
  from assms have "handleContainerEvent (capturedProps h) (capturedState h) d fromTop fromBottom
                   = Inr (st, d')"
    by (simp add: callHandler_def)
  then show ?thesis by (rule handleContainerEvent_Inr)
qed

text \<open>The subscribed handler is the first render's, so every state it publishes has
  \<^verbatim>\<open>wasSticky = false\<close>.\<close>

lemma cycles_wasSticky:
  "statesOf (cycles (firstRender p) d ns) = Some sts \<Longrightarrow> st \<in> set sts \<Longrightarrow> \<not> wasSticky st"
proof (induction ns arbitrary: d sts)
  case Nil
  then show ?case by (simp add: statesOf_def)
next
  case (Cons n ns)
  from Cons.prems(1) obtain st0 d0 sts0 d1 where
    first: "callHandler (firstRender p) (d\<lparr>parent := n\<rparr>) (fst (measureRoot n)) (snd (measureRoot n))
            = Inr (st0, d0)" and
    rest: "cycles (firstRender p) d0 ns = Inr (sts0, d1)" and
    sts: "sts = st0 # sts0"
    by (auto simp: statesOf_def split: sum.splits prod.splits)
  from wasSticky_is_captured [OF first] have "\<not> wasSticky st0"
    by (simp add: firstRender_def initialState_def)
  moreover from rest have "statesOf (cycles (firstRender p) d0 ns) = Some sts0"
    by (simp add: statesOf_def)
  ultimately show ?case
    using Cons.IH Cons.prems(2) sts by auto
qed

text \<open>
  Claim C5 against the code. A Sticky with default props receives two broadcasts while
  the root's top edge is 10px above the viewport top. Both cycles compute
  \<^verbatim>\<open>isSticky = true\<close>, and both publish \<^verbatim>\<open>wasSticky = false\<close>: the
  second cycle's \<^verbatim>\<open>wasSticky\<close> is not the first cycle's
  \<^verbatim>\<open>isSticky\<close>.
\<close>

theorem wasSticky_stale:
  "map_option (map isSticky)
     (statesOf (cycles (firstRender defaultProps) exampleDom [Some exampleRoot, Some exampleRoot]))
     = Some [True, True]
   \<and> map_option (map wasSticky)
       (statesOf (cycles (firstRender defaultProps) exampleDom [Some exampleRoot, Some exampleRoot]))
     = Some [False, False]"
  by (simp add: callHandler_def firstRender_def handleContainerEvent_def relativeTop_def
      calculateStyle_def defaultProps_def exampleDom_def exampleRoot_def examplePlaceholder_def
      initialState_def measureRoot_def Let_def statesOf_def nullish_def)

section \<open>A broadcast while the root node is not mounted\<close>

text \<open>
  Claim C8, as stated, fails. A Sticky with default props is sticky after a first
  broadcast (root mounted, top edge 10px above the viewport top); a second broadcast
  measured while \<^verbatim>\<open>node.current\<close> is null publishes
  \<^verbatim>\<open>isSticky = false\<close>: the sticky state changes in that cycle. In relative
  mode the handler reads \<^verbatim>\<open>parent.scrollTop\<close> of the null node and throws.
\<close>

theorem unmounted_root_counterexample:
  "measureRoot None = (Undefined, Undefined)
   \<and> map_option (map isSticky)
       (statesOf (cycles (firstRender defaultProps) exampleDom [Some exampleRoot, None]))
     = Some [True, False]
   \<and> cycles (firstRender (defaultProps\<lparr>relative := True\<rparr>)) exampleDom [None] = Inl TypeError"
  by (simp add: callHandler_def firstRender_def handleContainerEvent_def relativeTop_def
      calculateStyle_def defaultProps_def exampleDom_def exampleRoot_def examplePlaceholder_def
      initialState_def measureRoot_def Let_def statesOf_def nullish_def)

text \<open>
  Claim C8, amended. When the root node is not mounted the measured distances are both
  \<^verbatim>\<open>undefined\<close>; a Sticky that is not in relative mode runs its handler on
  them without throwing and decides \<^verbatim>\<open>isSticky = false\<close> whatever state its
  closure holds: it publishes \<^verbatim>\<open>distanceFromTop = undefined\<close>,
  \<^verbatim>\<open>distanceFromBottom = NaN\<close> and a style with no positioning property.
\<close>

theorem unmounted_root_unsticks:
  assumes "\<not> relative p" and "parent d = None"
  shows "measureRoot (parent d) = (Undefined, Undefined)
         \<and> map_option isSticky
             (published (handleContainerEvent p s d
                (fst (measureRoot (parent d))) (snd (measureRoot (parent d)))))
           = Some False
         \<and> map_option distanceFromTop
             (published (handleContainerEvent p s d
                (fst (measureRoot (parent d))) (snd (measureRoot (parent d)))))
           = Some Undefined
         \<and> map_option distanceFromBottom
             (published (handleContainerEvent p s d
                (fst (measureRoot (parent d))) (snd (measureRoot (parent d)))))
           = Some NaN
         \<and> map_option style
             (published (handleContainerEvent p s d
                (fst (measureRoot (parent d))) (snd (measureRoot (parent d)))))
           = Some (if disableHardwareAcceleration p then Map.empty
                   else [''transform'' \<mapsto> CStr ''translateZ(0)''])"
proof -
  have m: "measureRoot (parent d) = (Undefined, Undefined)"
    using assms(2) by (simp add: measureRoot_def)
  have top: "relativeTop p d Undefined = Inr Undefined"
    using assms(1) by (simp add: relativeTop_def)
  have run: "handleContainerEvent p s d Undefined Undefined =
               Inr (\<lparr>isSticky = False, wasSticky = isSticky s, distanceFromTop = Undefined,
                      distanceFromBottom = NaN,
                      calculatedHeight = (case contentHeight d of None \<Rightarrow> Num 0 | Some h \<Rightarrow> Num h),
                      style = (if disableHardwareAcceleration p then Map.empty
                               else [''transform'' \<mapsto> CStr ''translateZ(0)''])\<rparr>,
                    (case placeholder d of
                       None \<Rightarrow> d
                     | Some ph \<Rightarrow> d\<lparr>placeholder := Some (ph\<lparr>paddingBottom := CPx (Num 0)\<rparr>)\<rparr>))"
    unfolding handleContainerEvent_def top
    by (simp add: calculateStyle_not_sticky Let_def)
  show ?thesis
    unfolding m by (simp add: run published_def)
qed

theorem unmounted_root_unsticks_witness:
  "\<not> relative defaultProps
   \<and> parent (exampleDom\<lparr>parent := None\<rparr>) = None
   \<and> map_option isSticky
       (published (handleContainerEvent defaultProps (initialState\<lparr>isSticky := True\<rparr>)
          (exampleDom\<lparr>parent := None\<rparr>) Undefined Undefined))
     = Some False"
proof -
  have a: "\<not> relative defaultProps"
    by (simp add: defaultProps_def)
  have b: "parent (exampleDom\<lparr>parent := None\<rparr>) = None"
    by simp
  from unmounted_root_unsticks [OF a b, of "initialState\<lparr>isSticky := True\<rparr>"] a b
  show ?thesis
    by (simp add: measureRoot_def)
qed

section \<open>The subscriber registry\<close>

lemma effectCleanup_fields [simp]:
  "subscribers (effectCleanup c) = subscribers c"
  "framePending (effectCleanup c) = framePending c"
  "lastHandle (effectCleanup c) = lastHandle c"
  "node (effectCleanup c) = node c"
  "calls (effectCleanup c) = calls c"
  by (simp_all add: effectCleanup_def rafCancel_def split: option.splits)

lemma effectCleanup_queue:
  "rafQueue (effectCleanup c) = rafQueue c
   \<or> (\<exists>handle. rafQueue (effectCleanup c) = filter (\<lambda>(i, callback). i \<noteq> handle) (rafQueue c))"
  by (auto simp: effectCleanup_def rafCancel_def split: option.splits)

lemma effectCleanup_queue_length: "length (rafQueue (effectCleanup c)) \<le> length (rafQueue c)"
  using effectCleanup_queue [of c] by (auto simp del: filter.simps)

lemma setSubscribers_fields [simp]:
  "subscribers (setSubscribers updater c) = updater (subscribers c)"
  "framePending (setSubscribers updater c) = framePending c"
  "lastHandle (setSubscribers updater c) = lastHandle c"
  "node (setSubscribers updater c) = node c"
  "calls (setSubscribers updater c) = calls c"
  by (simp_all add: setSubscribers_def)

lemma setSubscribers_queue_length:
  "length (rafQueue (setSubscribers updater c)) \<le> length (rafQueue c)"
  using effectCleanup_queue_length [of "c\<lparr>subscribers := updater (subscribers c)\<rparr>"]
  by (simp add: setSubscribers_def)

lemma subscribers_subscribe: "subscribers (subscribe handler c) = subscribers c @ [handler]"
  by (simp add: subscribe_def)

lemma subscribers_unsubscribe:
  "subscribers (unsubscribe handler c)
   = filter (\<lambda>current. current \<noteq> handler) (subscribers c) @ [handler]"
  by (simp add: unsubscribe_def)

text \<open>After \<^verbatim>\<open>unsubscribe(handler)\<close> the handler is in the registry, exactly
  once and last, whether it was there before or not; the other handlers keep their
  order and multiplicity.\<close>

lemma unsubscribe_keeps_handler:
  "handler \<in> set (subscribers (unsubscribe handler c))"
  "count_list (subscribers (unsubscribe handler c)) handler = 1"
  "other \<noteq> handler \<Longrightarrow>
     count_list (subscribers (unsubscribe handler c)) other = count_list (subscribers c) other"
proof -
  have none: "count_list (filter (\<lambda>current. current \<noteq> handler) xs) handler = 0" for xs
    by (induction xs) simp_all
  have same: "other \<noteq> handler \<Longrightarrow>
      count_list (filter (\<lambda>current. current \<noteq> handler) xs) other = count_list xs other" for xs
    by (induction xs) simp_all
  show "handler \<in> set (subscribers (unsubscribe handler c))"
    by (simp add: subscribers_unsubscribe)
  show "count_list (subscribers (unsubscribe handler c)) handler = 1"
    by (simp add: subscribers_unsubscribe none)
  show "other \<noteq> handler \<Longrightarrow>
     count_list (subscribers (unsubscribe handler c)) other = count_list (subscribers c) other"
    by (simp add: subscribers_unsubscribe same)
qed

text \<open>
  Claim C3 against the code. Unsubscribing handler 1 from the registry [1, 2] gives
  [2, 1]: handler 1 is still registered. Unsubscribing handler 1 from the empty registry
  gives [1]: the registry changed, and the absent handler is now registered.
\<close>

theorem unsubscribe_reappends:
  "subscribers (subscribe 2 (subscribe 1 (mountedContainer None))) = [1 :: nat, 2]
   \<and> subscribers (unsubscribe 1 (subscribe 2 (subscribe 1 (mountedContainer None)))) = [2 :: nat, 1]
   \<and> subscribers (unsubscribe 1 (mountedContainer None)) = [1 :: nat]"
  by (simp add: subscribers_unsubscribe subscribers_subscribe mountedContainer_def)

section \<open>Mounting a Sticky\<close>

text \<open>
  The subscribing effect on its own. With no enclosing container the context is the
  default \<^verbatim>\<open>{}\<close>, \<^verbatim>\<open>context.subscribe\<close> is absent and the effect
  throws \<^verbatim>\<open>TypeError\<close>; so it does for any context without a subscribe
  capability. With a context that has the capabilities, the effect is one call of
  subscribe with the handler, and the cleanup run at unmount is one call of unsubscribe
  with that same handler. Inside a container the effect appends the handler to the
  registry once.
\<close>

lemma mount_effect_calls:
  "mountEffect defaultContext handler c = Inl TypeError"
  "ctxSubscribe ctx = None \<Longrightarrow> mountEffect ctx handler c = Inl TypeError"
  "ctxSubscribe ctx = Some sub \<Longrightarrow> mountEffect ctx handler c = Inr (sub handler c)"
  "ctxUnsubscribe ctx = Some unsub \<Longrightarrow> unmountCleanup ctx handler c = Inr (unsub handler c)"
  "mountEffect providedContext handler k = Inr (subscribe handler k)"
  "subscribers (subscribe handler k) = subscribers k @ [handler]"
  "unmountCleanup providedContext handler k = Inr (unsubscribe handler k)"
  by (simp_all add: mountEffect_def unmountCleanup_def defaultContext_def providedContext_def
      subscribers_subscribe)

text \<open>Inside a container, the handler a Sticky subscribed is in the registry after the
  cleanup of its unmount, whatever the registry held before.\<close>

lemma registered_after_unmount:
  assumes "mountEffect providedContext handler k = Inr k1"
    and "unmountCleanup providedContext handler k1 = Inr k2"
  shows "handler \<in> set (subscribers k2)"
proof -
  from assms(2) have "k2 = unsubscribe handler k1"
    by (simp add: mount_effect_calls(7))
  then show ?thesis
    by (simp add: unsubscribe_keeps_handler(1))
qed

text \<open>
  Claim C9 against the code. Without a container the effect throws
  \<^verbatim>\<open>TypeError\<close>, and inside a container it subscribes its handler once: a
  Sticky with handler 1 mounted in a fresh container makes the registry [1]. The cleanup
  run at unmount calls the container's \<^verbatim>\<open>unsubscribe\<close>, which leaves the
  registry at [1]: the listener is not unsubscribed, and the broadcast of the next event
  and frame calls the handler of the unmounted Sticky.
\<close>

theorem unmount_leaves_listener:
  "mountEffect (defaultContext :: (nat, nat container) sticky_context) 1
     (mountedContainer (Some exampleRoot))
     = Inl TypeError
   \<and> mountEffect providedContext (1 :: nat) (mountedContainer (Some exampleRoot))
       = Inr (subscribe 1 (mountedContainer (Some exampleRoot)))
   \<and> subscribers (subscribe (1 :: nat) (mountedContainer (Some exampleRoot))) = [1]
   \<and> unmountCleanup providedContext (1 :: nat) (subscribe 1 (mountedContainer (Some exampleRoot)))
       = Inr (unsubscribe 1 (subscribe 1 (mountedContainer (Some exampleRoot))))
   \<and> subscribers (unsubscribe (1 :: nat) (subscribe 1 (mountedContainer (Some exampleRoot)))) = [1]
   \<and> map fst (calls (frame quiet (notifySubscribers
                (unsubscribe 1 (subscribe 1 (mountedContainer (Some exampleRoot)))))))
       = [1]"
proof -
  have "map fst (calls (frame quiet (notifySubscribers
                (unsubscribe 1 (subscribe 1 (mountedContainer (Some exampleRoot)))))))
       = [1]"
    by code_simp
  then show ?thesis
    by (simp add: mount_effect_calls subscribers_subscribe subscribers_unsubscribe
        mountedContainer_def)
qed

section \<open>The frame throttle\<close>

lemma applyOp_fields [simp]:
  "framePending (applyOp op c) = framePending c"
  "lastHandle (applyOp op c) = lastHandle c"
  "node (applyOp op c) = node c"
  "calls (applyOp op c) = calls c"
  by (cases op; simp add: subscribe_def unsubscribe_def)+

lemma applyOp_queue_length: "length (rafQueue (applyOp op c)) \<le> length (rafQueue c)"
  by (cases op) (simp_all add: subscribe_def unsubscribe_def setSubscribers_queue_length)

lemma fold_applyOp_fields [simp]:
  "framePending (fold applyOp ops c) = framePending c"
  "lastHandle (fold applyOp ops c) = lastHandle c"
  "node (fold applyOp ops c) = node c"
  "calls (fold applyOp ops c) = calls c"
  by (induction ops arbitrary: c; simp)+

lemma fold_applyOp_queue_length: "length (rafQueue (fold applyOp ops c)) \<le> length (rafQueue c)"
proof (induction ops arbitrary: c)
  case Nil
  show ?case by simp
next
  case (Cons op ops)
  have "length (rafQueue (fold applyOp ops (applyOp op c))) \<le> length (rafQueue (applyOp op c))"
    by (rule Cons.IH)
  also have "\<dots> \<le> length (rafQueue c)"
    by (rule applyOp_queue_length)
  finally show ?case by simp
qed

lemma invoke_fields [simp]:
  "framePending (invoke react fromTop fromBottom handler c) = framePending c"
  "lastHandle (invoke react fromTop fromBottom handler c) = lastHandle c"
  "node (invoke react fromTop fromBottom handler c) = node c"
  "calls (invoke react fromTop fromBottom handler c) = calls c @ [(handler, fromTop, fromBottom)]"
  by (simp_all add: invoke_def)

lemma invoke_queue_length:
  "length (rafQueue (invoke react fromTop fromBottom handler c)) \<le> length (rafQueue c)"
  using fold_applyOp_queue_length
    [of "react (calls c) handler" "c\<lparr>calls := calls c @ [(handler, fromTop, fromBottom)]\<rparr>"]
  by (simp add: invoke_def)

lemma forEach_fields [simp]:
  "framePending (fold (invoke react fromTop fromBottom) hs c) = framePending c"
  "lastHandle (fold (invoke react fromTop fromBottom) hs c) = lastHandle c"
  "node (fold (invoke react fromTop fromBottom) hs c) = node c"
  by (induction hs arbitrary: c; simp)+

lemma forEach_calls:
  "calls (fold (invoke react fromTop fromBottom) hs c)
   = calls c @ map (\<lambda>h. (h, fromTop, fromBottom)) hs"
  by (induction hs arbitrary: c) simp_all

lemma forEach_queue_length:
  "length (rafQueue (fold (invoke react fromTop fromBottom) hs c)) \<le> length (rafQueue c)"
proof (induction hs arbitrary: c)
  case Nil
  show ?case by simp
next
  case (Cons h hs)
  have "length (rafQueue (fold (invoke react fromTop fromBottom) hs
                 (invoke react fromTop fromBottom h c)))
        \<le> length (rafQueue (invoke react fromTop fromBottom h c))"
    by (rule Cons.IH)
  also have "\<dots> \<le> length (rafQueue c)"
    by (rule invoke_queue_length)
  finally show ?case by simp
qed

lemma frameCallback_fields [simp]:
  "framePending (frameCallback react captured c) = False"
  "lastHandle (frameCallback react captured c) = lastHandle c"
  "node (frameCallback react captured c) = node c"
  by (simp_all add: frameCallback_def Let_def split: prod.splits)

lemma frameCallback_queue_length:
  "length (rafQueue (frameCallback react captured c)) \<le> length (rafQueue c)"
proof -
  obtain fromTop fromBottom where m: "measureRoot (node c) = (fromTop, fromBottom)"
    by (cases "measureRoot (node c)")
  from forEach_queue_length [of react fromTop fromBottom captured "c\<lparr>framePending := False\<rparr>"] m
  show ?thesis
    by (simp add: frameCallback_def)
qed

text \<open>Every handler of the captured array is called once, in order, with the measured
  sample, whatever the handlers do to the registry while the broadcast runs.\<close>

lemma frameCallback_calls:
  "calls (frameCallback react captured c)
   = calls c @ map (\<lambda>h. (h, fst (measureRoot (node c)), snd (measureRoot (node c)))) captured"
  by (simp add: frameCallback_def forEach_calls split: prod.splits)

lemma callbacks_fields:
  "lastHandle (fold (\<lambda>(handle, captured). frameCallback react captured) q c) = lastHandle c"
  "q \<noteq> [] \<Longrightarrow> \<not> framePending (fold (\<lambda>(handle, captured). frameCallback react captured) q c)"
  "length (rafQueue (fold (\<lambda>(handle, captured). frameCallback react captured) q c))
   \<le> length (rafQueue c)"
proof -
  show "lastHandle (fold (\<lambda>(handle, captured). frameCallback react captured) q c) = lastHandle c"
    by (induction q arbitrary: c) (simp_all split: prod.splits)
  show "q \<noteq> [] \<Longrightarrow>
          \<not> framePending (fold (\<lambda>(handle, captured). frameCallback react captured) q c)"
  proof (induction q arbitrary: c rule: rev_induct)
    case Nil
    then show ?case by simp
  next
    case (snoc x q)
    show ?case by (cases x) simp
  qed
  show "length (rafQueue (fold (\<lambda>(handle, captured). frameCallback react captured) q c))
        \<le> length (rafQueue c)"
  proof (induction q arbitrary: c)
    case Nil
    show ?case by simp
  next
    case (Cons x q)
    obtain handle captured where x: "x = (handle, captured)" by (cases x)
    have "length (rafQueue (fold (\<lambda>(handle, captured). frameCallback react captured) q
                   (frameCallback react captured c)))
          \<le> length (rafQueue (frameCallback react captured c))"
      by (rule Cons.IH)
    also have "\<dots> \<le> length (rafQueue c)"
      by (rule frameCallback_queue_length)
    finally show ?case by (simp add: x)
  qed
qed

lemma frame_fields:
  "lastHandle (frame react c) = lastHandle c"
  "rafQueue c \<noteq> [] \<Longrightarrow> \<not> framePending (frame react c)"
  "rafQueue (frame react c) = []"
proof -
  show "lastHandle (frame react c) = lastHandle c"
    by (simp add: frame_def callbacks_fields(1))
  show "rafQueue c \<noteq> [] \<Longrightarrow> \<not> framePending (frame react c)"
    by (simp add: frame_def callbacks_fields(2))
  from callbacks_fields(3) [of react "rafQueue c" "c\<lparr>rafQueue := []\<rparr>"]
  show "rafQueue (frame react c) = []"
    by (simp add: frame_def)
qed

lemma notifySubscribers_idle:
  assumes "\<not> framePending c"
  shows "framePending (notifySubscribers c)"
    and "lastHandle (notifySubscribers c) = lastHandle c + 1"
    and "rafHandle (notifySubscribers c) = Some (lastHandle c + 1)"
    and "rafQueue (notifySubscribers c) = rafQueue c @ [(lastHandle c + 1, subscribers c)]"
  using assms by (simp_all add: notifySubscribers_def raf_def)

lemma notifySubscribers_pending: "framePending c \<Longrightarrow> notifySubscribers c = c"
  by (simp add: notifySubscribers_def)

text \<open>The invariant of a mounted container: a queued callback is alone in the queue,
  and the pending flag is set while it waits.\<close>

lemma step_invariant:
  assumes "rafQueue c = [] \<or> (framePending c \<and> length (rafQueue c) = 1)"
  shows "rafQueue (step react a c) = []
         \<or> (framePending (step react a c) \<and> length (rafQueue (step react a c)) = 1)"
proof (cases a)
  case Event
  show ?thesis
  proof (cases "framePending c")
    case True
    with assms Event show ?thesis by (simp add: notifySubscribers_pending)
  next
    case False
    with assms have "rafQueue c = []" by auto
    with False Event show ?thesis by (simp add: notifySubscribers_idle)
  qed
next
  case Frame
  then show ?thesis by (simp add: frame_fields(3))
next
  case (Subscribe h)
  have "length (rafQueue (subscribe h c)) \<le> length (rafQueue c)"
    by (simp add: subscribe_def setSubscribers_queue_length)
  moreover have "framePending (subscribe h c) = framePending c"
    by (simp add: subscribe_def)
  ultimately show ?thesis
    using assms Subscribe by (cases "rafQueue (subscribe h c)") auto
next
  case (Unsubscribe h)
  have "length (rafQueue (unsubscribe h c)) \<le> length (rafQueue c)"
    by (simp add: unsubscribe_def setSubscribers_queue_length)
  moreover have "framePending (unsubscribe h c) = framePending c"
    by (simp add: unsubscribe_def)
  ultimately show ?thesis
    using assms Unsubscribe by (cases "rafQueue (unsubscribe h c)") auto
qed

lemma run_invariant:
  assumes "rafQueue c = [] \<or> (framePending c \<and> length (rafQueue c) = 1)"
  shows "rafQueue (run react acts c) = []
         \<or> (framePending (run react acts c) \<and> length (rafQueue (run react acts c)) = 1)"
  using assms
proof (induction acts arbitrary: c)
  case Nil
  then show ?case by (simp add: run_def)
next
  case (Cons a acts)
  from step_invariant [OF Cons.prems, of react a]
  have "rafQueue (run react acts (step react a c)) = []
         \<or> (framePending (run react acts (step react a c))
             \<and> length (rafQueue (run react acts (step react a c))) = 1)"
    by (rule Cons.IH)
  then show ?case by (simp add: run_def)
qed

text \<open>Between two frames: the number of calls of \<^verbatim>\<open>raf\<close> is the growth of the
  last handle, and once the flag is set no call is made.\<close>

lemma run_between_frames:
  assumes "Frame \<notin> set acts"
  shows "lastHandle (run react acts c) \<le> lastHandle c + 1
         \<and> (framePending c \<longrightarrow> lastHandle (run react acts c) = lastHandle c)"
  using assms
proof (induction acts arbitrary: c)
  case Nil
  then show ?case by (simp add: run_def)
next
  case (Cons a acts)
  then have noFrame: "Frame \<notin> set acts" and a: "a \<noteq> Frame"
    by auto
  note IH = Cons.IH [OF noFrame, of "step react a c"]
  have unfold: "run react (x # acts) c = run react acts (step react x c)" for x
    by (simp add: run_def)
  show ?case
  proof (cases a)
    case Event
    show ?thesis
    proof (cases "framePending c")
      case True
      with IH Event show ?thesis
        by (simp add: unfold notifySubscribers_pending)
    next
      case False
      with IH Event show ?thesis
        by (simp add: unfold notifySubscribers_idle)
    qed
  next
    case Frame
    with a show ?thesis by simp
  next
    case (Subscribe h)
    with IH show ?thesis
      by (simp add: unfold subscribe_def)
  next
    case (Unsubscribe h)
    with IH show ?thesis
      by (simp add: unfold unsubscribe_def)
  qed
qed

text \<open>
  A callback that waits in the queue holds the registry as it is: a change of the
  registry renders the container again, and the cleanup of the binding effect cancels
  the waiting callback. So the array a broadcast iterates is the registry of the moment
  the broadcast starts, and by \<open>frameCallback_calls\<close> each of its handlers is called
  once.
\<close>

lemma step_snapshot:
  assumes "rafQueue c = []
           \<or> (\<exists>handle. handle \<noteq> 0 \<and> framePending c \<and> rafHandle c = Some handle
                \<and> rafQueue c = [(handle, subscribers c)])"
  shows "rafQueue (step react a c) = []
         \<or> (\<exists>handle. handle \<noteq> 0 \<and> framePending (step react a c)
              \<and> rafHandle (step react a c) = Some handle
              \<and> rafQueue (step react a c) = [(handle, subscribers (step react a c))])"
proof -
  have cancelled: "rafQueue (setSubscribers updater c) = []" for updater
    using assms
    by (auto simp: setSubscribers_def effectCleanup_def rafCancel_def split: option.splits)
  show ?thesis
  proof (cases a)
    case Event
    show ?thesis
    proof (cases "framePending c")
      case True
      with assms Event show ?thesis by (simp add: notifySubscribers_pending)
    next
      case False
      with assms have "rafQueue c = []" by auto
      with Event False show ?thesis
        by (simp add: notifySubscribers_def raf_def)
    qed
  next
    case Frame
    then show ?thesis by (simp add: frame_fields(3))
  next
    case (Subscribe h)
    then show ?thesis by (simp add: subscribe_def cancelled)
  next
    case (Unsubscribe h)
    then show ?thesis by (simp add: unsubscribe_def cancelled)
  qed
qed

lemma run_snapshot:
  "rafQueue (run react acts (mountedContainer n)) = []
   \<or> (\<exists>handle. rafQueue (run react acts (mountedContainer n))
                    = [(handle, subscribers (run react acts (mountedContainer n)))])"
proof -
  have "rafQueue (run react acts c) = []
        \<or> (\<exists>handle. handle \<noteq> 0 \<and> framePending (run react acts c)
             \<and> rafHandle (run react acts c) = Some handle
             \<and> rafQueue (run react acts c) = [(handle, subscribers (run react acts c))])"
    if "rafQueue c = []
        \<or> (\<exists>handle. handle \<noteq> 0 \<and> framePending c \<and> rafHandle c = Some handle
             \<and> rafQueue c = [(handle, subscribers c)])" for c :: "'a container"
    using that
  proof (induction acts arbitrary: c)
    case Nil
    then show ?case by (simp add: run_def)
  next
    case (Cons a acts)
    from step_snapshot [OF Cons.prems, of react a]
    have "rafQueue (run react acts (step react a c)) = []
          \<or> (\<exists>handle. handle \<noteq> 0 \<and> framePending (run react acts (step react a c))
               \<and> rafHandle (run react acts (step react a c)) = Some handle
               \<and> rafQueue (run react acts (step react a c))
                   = [(handle, subscribers (run react acts (step react a c)))])"
      by (rule Cons.IH)
    then show ?case by (simp add: run_def)
  qed
  from this [of "mountedContainer n"] show ?thesis
    by (auto simp: mountedContainer_def)
qed

text \<open>So a frame of a mounted container does nothing, or makes one broadcast, to the
  registry as it is.\<close>

lemma frame_one_broadcast:
  "frame react (run react acts (mountedContainer n)) = run react acts (mountedContainer n)
   \<or> frame react (run react acts (mountedContainer n))
       = frameCallback react (subscribers (run react acts (mountedContainer n)))
           ((run react acts (mountedContainer n))\<lparr>rafQueue := []\<rparr>)"
  using run_snapshot [of react acts n]
  by (auto simp: frame_def)

text \<open>
  Claim C6. Between two frames (a run with no \<open>Frame\<close> in it) a container calls
  \<^verbatim>\<open>raf\<close> at most once, however many events, subscriptions and
  unsubscriptions the run holds: handles are given out in sequence, so the growth of the
  last handle counts the calls. A mounted container never has more than one callback
  queued. An event that finds the flag clear schedules one callback, capturing the
  current subscribers, and sets the flag; an event that finds it set changes nothing;
  the frame that fires a callback clears the flag and empties the queue. A frame of a
  mounted container therefore changes nothing or runs one callback, which is one
  measurement and one broadcast to the registry.
\<close>

theorem one_frame_callback:
  "(Frame \<notin> set acts \<longrightarrow> lastHandle (run react acts c) \<le> lastHandle c + 1)
   \<and> length (rafQueue (run react acts (mountedContainer n))) \<le> 1
   \<and> (\<not> framePending c \<longrightarrow>
         framePending (notifySubscribers c)
         \<and> lastHandle (notifySubscribers c) = lastHandle c + 1
         \<and> rafQueue (notifySubscribers c) = rafQueue c @ [(lastHandle c + 1, subscribers c)])
   \<and> (framePending c \<longrightarrow> notifySubscribers c = c)
   \<and> (rafQueue c \<noteq> [] \<longrightarrow> \<not> framePending (frame react c))
   \<and> rafQueue (frame react c) = []
   \<and> (frame react (run react acts (mountedContainer n)) = run react acts (mountedContainer n)
        \<or> frame react (run react acts (mountedContainer n))
            = frameCallback react (subscribers (run react acts (mountedContainer n)))
                ((run react acts (mountedContainer n))\<lparr>rafQueue := []\<rparr>))"
proof -
  have "rafQueue (mountedContainer n :: 'a container) = []
        \<or> (framePending (mountedContainer n :: 'a container)
            \<and> length (rafQueue (mountedContainer n :: 'a container)) = 1)"
    by (simp add: mountedContainer_def)
  from run_invariant [OF this, of react acts]
  have one: "length (rafQueue (run react acts (mountedContainer n))) \<le> 1"
    by auto
  show ?thesis
    using one run_between_frames [of acts react c] notifySubscribers_idle [of c]
      notifySubscribers_pending [of c] frame_one_broadcast [of react acts n]
    by (simp add: frame_fields(2,3))
qed

theorem one_frame_callback_witness:
  "Frame \<notin> set (replicate 50 (Event :: nat action))
   \<and> lastHandle (run quiet (replicate 50 Event) (mountedContainer None)) \<le> 1
   \<and> lastHandle (run quiet (replicate 50 Event) (mountedContainer None)) = 1
   \<and> \<not> framePending (mountedContainer None :: nat container)
   \<and> framePending (notifySubscribers (mountedContainer None :: nat container))
   \<and> rafQueue (notifySubscribers (mountedContainer None :: nat container)) = [(1, [])]
   \<and> notifySubscribers (notifySubscribers (mountedContainer None :: nat container))
       = notifySubscribers (mountedContainer None)
   \<and> \<not> framePending (frame quiet (notifySubscribers (mountedContainer None)))"
proof -
  let ?c = "mountedContainer None :: nat container"
  have noFrame: "Frame \<notin> set (replicate 50 (Event :: nat action))"
    by simp
  have idle: "\<not> framePending ?c" and h0: "lastHandle ?c = 0" and q0: "rafQueue ?c = []"
    and s0: "subscribers ?c = []"
    by (simp_all add: mountedContainer_def)
  from one_frame_callback [of "replicate 50 Event" quiet ?c None] noFrame h0
  have bound: "lastHandle (run quiet (replicate 50 Event) ?c) \<le> 1"
    by simp
  from one_frame_callback [of "[]" quiet ?c None] idle h0 q0 s0
  have sched: "framePending (notifySubscribers ?c)"
    "rafQueue (notifySubscribers ?c) = [(1, [])]"
    by simp_all
  from one_frame_callback [of "[]" quiet "notifySubscribers ?c" None] sched
  have again: "notifySubscribers (notifySubscribers ?c) = notifySubscribers ?c"
    and fired: "\<not> framePending (frame quiet (notifySubscribers ?c))"
    by simp_all
  have exact: "lastHandle (run quiet (replicate 50 Event) ?c) = 1"
    by code_simp
  show ?thesis
    using noFrame bound exact idle sched again fired by simp
qed

section \<open>Broadcast and unsubscription\<close>

text \<open>
  Claim C7 against the code. Handlers 1 and 2 are subscribed; an event and a frame give
  a first broadcast, during which handler 1 unsubscribes handler 2. That broadcast
  reaches handlers 1 and 2, once each, as the claim says. The registry after it is
  still [1, 2], and the broadcast of the next event and frame calls handler 2 again:
  the unsubscribed listener is not excluded. The same happens when handler 2 is
  unsubscribed between the two broadcasts, by handlers that leave the registry alone.
\<close>

theorem unsubscribed_listener_called_again:
  "map fst (calls (run unmountsOther [Subscribe 1, Subscribe 2, Event, Frame]
                     (mountedContainer (Some exampleRoot))))
     = [1, 2]
   \<and> subscribers (run unmountsOther [Subscribe 1, Subscribe 2, Event, Frame]
                     (mountedContainer (Some exampleRoot)))
     = [1, 2]
   \<and> map fst (calls (run unmountsOther [Subscribe 1, Subscribe 2, Event, Frame, Event, Frame]
                       (mountedContainer (Some exampleRoot))))
     = [1, 2, 1, 2]
   \<and> map fst (calls (run quiet [Subscribe 1, Subscribe 2, Event, Frame, Unsubscribe 2, Event, Frame]
                       (mountedContainer (Some exampleRoot))))
     = [1, 2, 1, 2]"
  by code_simp


end
